theory Spec2Isabelle
  imports Main "HOL-Library.Word"
begin

unbundle bit_operations_syntax

section \<open>Go runtime: outcomes, arrays and slices\<close>

text \<open>
  A Go call either returns a value or panics with a message.  Every indexing and slicing
  operation of the source that the runtime checks is a branch of the model.
\<close>

datatype 'a outcome = Returns 'a | Panics string

type_synonym byte = "8 word"

text \<open>\<open>xs[i]\<close>: the runtime panics unless \<open>0 \<le> i < len(xs)\<close>.\<close>

definition go_index :: "'a list \<Rightarrow> int \<Rightarrow> 'a outcome" where
  "go_index xs i =
     (if 0 \<le> i \<and> i < int (length xs) then Returns (xs ! nat i)
      else Panics ''index out of range'')"

text \<open>
  \<open>xs[lo:hi]\<close>: the runtime panics unless \<open>0 \<le> lo \<le> hi \<le> cap(xs)\<close>.  The byte
  sequences of the model are exactly the bytes supplied, so the capacity is the length.
\<close>

definition go_slice :: "'a list \<Rightarrow> int \<Rightarrow> int \<Rightarrow> 'a list outcome" where
  "go_slice xs lo hi =
     (if 0 \<le> lo \<and> lo \<le> hi \<and> hi \<le> int (length xs)
      then Returns (take (nat hi - nat lo) (drop (nat lo) xs))
      else Panics ''slice bounds out of range'')"

text \<open>\<open>xs[lo:]\<close> is \<open>xs[lo:len(xs)]\<close>.\<close>

definition go_slice_from :: "'a list \<Rightarrow> int \<Rightarrow> 'a list outcome" where
  "go_slice_from xs lo = go_slice xs lo (int (length xs))"

text \<open>\<open>xs[:hi]\<close> is \<open>xs[0:hi]\<close>.\<close>

definition go_slice_to :: "'a list \<Rightarrow> int \<Rightarrow> 'a list outcome" where
  "go_slice_to xs hi = go_slice xs 0 hi"

text \<open>
  The builtin \<open>copy(dst, src)\<close> overwrites the first \<open>min(len(dst), len(src))\<close> elements
  of \<open>dst\<close> with those of \<open>src\<close>; the model returns the updated destination.
\<close>

definition go_copy :: "'a list \<Rightarrow> 'a list \<Rightarrow> 'a list" where
  "go_copy dst src_in =
     take (min (length dst) (length src_in)) src_in
       @ drop (min (length dst) (length src_in)) dst"

text \<open>
  \<open>bytes.Compare\<close> of the Go standard library: \<open>-1\<close>, \<open>0\<close> or \<open>1\<close> as the first
  slice is lexicographically less than, equal to or greater than the second; bytes
  compare unsigned and a proper prefix is less.
\<close>

fun bytes_Compare :: "byte list \<Rightarrow> byte list \<Rightarrow> int" where
  "bytes_Compare [] [] = 0"
| "bytes_Compare [] (y # ys) = - 1"
| "bytes_Compare (x # xs) [] = 1"
| "bytes_Compare (x # xs) (y # ys) =
     (if x < y then - 1 else if y < x then 1 else bytes_Compare xs ys)"

section \<open>flows.go: endpoints\<close>

definition MaxEndpointSize :: int where
  "MaxEndpointSize = 16"

text \<open>\<open>type EndpointType int64\<close>: compared as a signed 64-bit integer.\<close>

type_synonym EndpointType = "64 word"

text \<open>
  \<open>struct Endpoint { typ EndpointType; len int; raw [MaxEndpointSize]byte }\<close>.
  The array is a list; the values the constructors build have 16 elements.
\<close>

record Endpoint =
  e_typ :: EndpointType
  e_len :: int
  e_raw :: "byte list"

text \<open>The zero value of the struct, which a named result starts from.\<close>

definition zero_Endpoint :: Endpoint where
  "zero_Endpoint = \<lparr>e_typ = 0, e_len = 0, e_raw = replicate (nat MaxEndpointSize) 0\<rparr>"

definition EndpointType_of :: "Endpoint \<Rightarrow> EndpointType" where
  "EndpointType_of a = e_typ a"

definition Raw :: "Endpoint \<Rightarrow> byte list outcome" where
  "Raw a = go_slice_to (e_raw a) (e_len a)"

text \<open>
  \<open>a.typ < b.typ || (a.typ == b.typ && bytes.Compare(a.raw[:a.len], b.raw[:b.len]) < 0)\<close>,
  with the short-circuit evaluation of Go: the slices are taken only when the types are
  equal.
\<close>

definition LessThan :: "Endpoint \<Rightarrow> Endpoint \<Rightarrow> bool outcome" where
  "LessThan a b =
     (if e_typ a <s e_typ b then Returns True
      else if e_typ a = e_typ b then
        (case go_slice_to (e_raw a) (e_len a) of
           Panics m \<Rightarrow> Panics m
         | Returns ra \<Rightarrow>
             (case go_slice_to (e_raw b) (e_len b) of
                Panics m \<Rightarrow> Panics m
              | Returns rb \<Rightarrow> Returns (bytes_Compare ra rb < 0)))
      else Returns False)"



definition NewEndpoint :: "EndpointType \<Rightarrow> byte list \<Rightarrow> Endpoint outcome" where
  "NewEndpoint t raw_in =
     (let e = zero_Endpoint\<lparr>e_len := int (length raw_in)\<rparr> in
      if e_len e > MaxEndpointSize
      then Panics ''raw byte length greater than MaxEndpointSize''
      else let e = e\<lparr>e_typ := t\<rparr>;
               e = e\<lparr>e_raw := go_copy (e_raw e) raw_in\<rparr>
           in Returns e)"

text \<open>
  The values of type \<open>Endpoint\<close> that exist outside the package: the array has
  \<open>MaxEndpointSize\<close> elements by its type, and \<open>len\<close> is a slice length that passed
  the check of \<open>NewEndpoint\<close> or \<open>NewFlow\<close> (or is 0 in the zero value).
\<close>

definition Endpoint_valid :: "Endpoint \<Rightarrow> bool" where
  "Endpoint_valid a \<longleftrightarrow>
     0 \<le> e_len a \<and> e_len a \<le> MaxEndpointSize \<and> int (length (e_raw a)) = MaxEndpointSize"


section \<open>flows.go: flows\<close>

text \<open>
  \<open>struct Flow { typ EndpointType; slen, dlen int; src, dst [MaxEndpointSize]byte }\<close>.
  The field \<open>typ\<close> is written \<open>f_typ\<close> here (and \<open>e_typ\<close>, \<open>e_len\<close>, \<open>e_raw\<close> in
  the endpoint), since \<open>typ\<close> is reserved in Isabelle.
\<close>

record Flow =
  f_typ :: EndpointType
  slen :: int
  dlen :: int
  src :: "byte list"
  dst :: "byte list"

definition zero_Flow :: Flow where
  "zero_Flow = \<lparr>f_typ = 0, slen = 0, dlen = 0,
                 src = replicate (nat MaxEndpointSize) 0,
                 dst = replicate (nat MaxEndpointSize) 0\<rparr>"

text \<open>The error value built by \<open>fmt.Errorf("Mismatched endpoint types: %v->%v", ...)\<close>.\<close>

datatype flow_error = MismatchedEndpointTypes EndpointType EndpointType

text \<open>
  \<open>FlowFromEndpoints\<close> returns the pair \<open>(Flow, error)\<close>; on the error path the flow
  is the zero value of the unnamed result.
\<close>

definition FlowFromEndpoints :: "Endpoint \<Rightarrow> Endpoint \<Rightarrow> Flow \<times> flow_error option" where
  "FlowFromEndpoints s d =
     (if e_typ s \<noteq> e_typ d
      then (zero_Flow, Some (MismatchedEndpointTypes (e_typ s) (e_typ d)))
      else (\<lparr>f_typ = e_typ s, slen = e_len s, dlen = e_len d, src = e_raw s, dst = e_raw d\<rparr>,
            None))"

text \<open>
  The loop of \<open>Flow.FastHash\<close>, from counter \<open>i\<close> and accumulators \<open>a\<close>, \<open>b\<close>.
  Both reads are indexed by \<open>f.slen\<close>, as in the source.
\<close>

function Flow_FastHash_loop ::
  "Flow \<Rightarrow> int \<Rightarrow> 64 word \<Rightarrow> 64 word \<Rightarrow> (64 word \<times> 64 word) outcome" where
  "Flow_FastHash_loop f i a b =
     (if i < slen f then
        (case go_index (src f) (slen f - 1 - i) of
           Panics m \<Rightarrow> Panics m
         | Returns x \<Rightarrow>
             (case go_index (dst f) (slen f - 1 - i) of
                Panics m \<Rightarrow> Panics m
              | Returns y \<Rightarrow>
                  Flow_FastHash_loop f (i + 1)
                    (a XOR push_bit (16 * (nat i mod 4)) (ucast x :: 64 word))
                    (b XOR push_bit (16 * (nat i mod 4)) (ucast y :: 64 word))))
      else Returns (a, b))"
  by pat_completeness auto
termination
  by (relation "measure (\<lambda>(f, i, a, b). nat (slen f - i))") auto

definition Flow_FastHash :: "Flow \<Rightarrow> 64 word outcome" where
  "Flow_FastHash f =
     (case Flow_FastHash_loop f 0 0 0 of
        Panics m \<Rightarrow> Panics m
      | Returns (a, b) \<Rightarrow>
          if a > b then Returns (a + push_bit 8 b)
          else Returns (b + push_bit 8 a))"

definition Endpoints :: "Flow \<Rightarrow> Endpoint \<times> Endpoint" where
  "Endpoints f =
     (\<lparr>e_typ = f_typ f, e_len = slen f, e_raw = src f\<rparr>,
      \<lparr>e_typ = f_typ f, e_len = dlen f, e_raw = dst f\<rparr>)"

definition Reverse :: "Flow \<Rightarrow> Flow" where
  "Reverse f = \<lparr>f_typ = f_typ f, slen = dlen f, dlen = slen f, src = dst f, dst = src f\<rparr>"

definition NewFlow :: "EndpointType \<Rightarrow> byte list \<Rightarrow> byte list \<Rightarrow> Flow outcome" where
  "NewFlow t s d =
     (let f = zero_Flow\<lparr>slen := int (length s)\<rparr>;
          f = f\<lparr>dlen := int (length d)\<rparr>
      in if slen f > MaxEndpointSize \<or> dlen f > MaxEndpointSize
         then Panics ''flow raw byte length greater than MaxEndpointSize''
         else let f = f\<lparr>f_typ := t\<rparr>;
                  f = f\<lparr>src := go_copy (src f) s\<rparr>;
                  f = f\<lparr>dst := go_copy (dst f) d\<rparr>
              in Returns f)"

section \<open>layers/icmp6msg.go\<close>

text \<open>
  Modelled from the spec: \<open>gopacket.DecodeFeedback\<close>, whose declaration is not among
  the sources.  It is the interface a decoder reports truncation through; the model keeps
  the one flag that \<open>SetTruncated\<close> raises.
\<close>

record DecodeFeedback =
  truncated :: bool

definition SetTruncated :: "DecodeFeedback \<Rightarrow> DecodeFeedback" where
  "SetTruncated df = df\<lparr>truncated := True\<rparr>"

text \<open>\<open>type ICMPv6Opt uint8\<close>.\<close>

type_synonym ICMPv6Opt = "8 word"

text \<open>\<open>struct ICMPv6Option { Type ICMPv6Opt; Length int; Data []byte }\<close>.\<close>

record ICMPv6Option =
  Type :: ICMPv6Opt
  Length :: int
  Data :: "byte list"

type_synonym ICMPv6Options = "ICMPv6Option list"

text \<open>
  The fields of \<open>ICMPv6RouterAdvertisement\<close> that the source declares (the embedded
  \<open>BaseLayer\<close> is declared elsewhere and no operation below reads it).
\<close>

record ICMPv6RouterAdvertisement =
  HopLimit :: "8 word"
  Flags :: "8 word"
  RouterLifetime :: "16 word"
  ReachableTime :: "32 word"
  RetransTimer :: "32 word"
  Options :: ICMPv6Options

definition ManagedAddressConfig :: "ICMPv6RouterAdvertisement \<Rightarrow> bool" where
  "ManagedAddressConfig i = (Flags i AND 0x80 \<noteq> 1)"

definition OtherConfig :: "ICMPv6RouterAdvertisement \<Rightarrow> bool" where
  "OtherConfig i = (Flags i AND 0x40 \<noteq> 1)"

text \<open>
  The two errors \<open>ICMPv6Options.DecodeFromBytes\<close> returns: the one built by
  \<open>errors.New\<close> for a header of fewer than 2 bytes, and the one built by \<open>fmt.Errorf\<close>
  from the bytes available and the declared length.
\<close>

datatype decode_error =
    LessThan2BytesForOption
  | OnlyBytesForOption int int

text \<open>
  \<open>ICMPv6Options.DecodeFromBytes\<close>.  The receiver \<open>*i\<close> and the feedback are state: the
  function takes them and gives them back next to what the call returns (\<open>nil\<close> is
  \<open>None\<close>) or the panic it ends in.
\<close>

function ICMPv6Options_DecodeFromBytes ::
  "ICMPv6Options \<Rightarrow> byte list \<Rightarrow> DecodeFeedback
     \<Rightarrow> decode_error option outcome \<times> ICMPv6Options \<times> DecodeFeedback" where
  "ICMPv6Options_DecodeFromBytes i data df =
     (if length data > 0 then
        if length data < 2
        then (Returns (Some LessThan2BytesForOption), i, SetTruncated df)
        else
          let opt = \<lparr>Type = data ! 0, Length = int (unat (data ! 1)) * 8, Data = []\<rparr> in
          if int (length data) < Length opt
          then (Returns (Some (OnlyBytesForOption (int (length data)) (Length opt))),
                i, SetTruncated df)
          else
            (case go_slice data 2 (Length opt) of
               Panics m \<Rightarrow> (Panics m, i, df)
             | Returns d \<Rightarrow>
                 (case go_slice_from data (Length opt) of
                    Panics m \<Rightarrow> (Panics m, i, df)
                  | Returns rest \<Rightarrow>
                      ICMPv6Options_DecodeFromBytes (i @ [opt\<lparr>Data := d\<rparr>]) rest df))
      else (Returns None, i, df))"
  by pat_completeness auto
termination
proof (relation "measure (\<lambda>(i, data, df). length data)")
  show "wf (measure (\<lambda>(i, data, df). length data))"
    by simp
next
  fix i :: ICMPv6Options and data :: "byte list" and df :: DecodeFeedback
    and opt :: ICMPv6Option and d rest :: "byte list"
  assume opt: "opt = \<lparr>Type = data ! 0, Length = int (unat (data ! 1)) * 8, Data = []\<rparr>"
    and d: "go_slice data 2 (Length opt) = Returns d"
    and rest: "go_slice_from data (Length opt) = Returns rest"
  from d have lo: "2 \<le> Length opt" and hi: "Length opt \<le> int (length data)"
    by (auto simp: go_slice_def split: if_splits)
  from rest lo hi have "rest = drop (nat (Length opt)) data"
    by (auto simp: go_slice_from_def go_slice_def split: if_splits)
  with lo hi have "length rest < length data"
    by auto
  then show "((i @ [opt\<lparr>Data := d\<rparr>], rest, df), (i, data, df))
               \<in> measure (\<lambda>(i, data, df). length data)"
    by simp
qed

section \<open>Flow reversal\<close>

text \<open>
  C4.  For every flow \<open>f\<close>, reversing twice gives \<open>f\<close> back; one reversal swaps the
  source and destination buffers together with their lengths and keeps the type.
\<close>

theorem Reverse_involution:
  "Reverse (Reverse f) = f
   \<and> f_typ (Reverse f) = f_typ f
   \<and> src (Reverse f) = dst f \<and> dst (Reverse f) = src f
   \<and> slen (Reverse f) = dlen f \<and> dlen (Reverse f) = slen f"
  by (simp add: Reverse_def)

section \<open>Endpoint construction\<close>

text \<open>
  C5 (as amended).  For every raw byte slice longer than \<open>MaxEndpointSize = 16\<close>,
  \<open>NewEndpoint\<close> panics with the message "raw byte length greater than MaxEndpointSize":
  no endpoint is built from a truncated address, and no error value is returned.
\<close>

theorem NewEndpoint_too_long_panics:
  "int (length raw_in) > MaxEndpointSize \<Longrightarrow>
     NewEndpoint t raw_in = Panics ''raw byte length greater than MaxEndpointSize''"
  by (simp add: NewEndpoint_def Let_def)

theorem NewEndpoint_too_long_witness:
  "int (length (replicate 20 (255 :: byte))) > MaxEndpointSize
   \<and> NewEndpoint 1 (replicate 20 255) = Panics ''raw byte length greater than MaxEndpointSize''"
  using NewEndpoint_too_long_panics [of "replicate 20 255" 1]
  by (simp add: MaxEndpointSize_def)

text \<open>
  On 17 zero bytes the call does not return at all, so it returns no error to its caller.
\<close>

theorem NewEndpoint_17_bytes_panics:
  "NewEndpoint 0 (replicate 17 0) = Panics ''raw byte length greater than MaxEndpointSize''"
  by (simp add: NewEndpoint_def Let_def MaxEndpointSize_def)

text \<open>
  C6.  For every endpoint type and every raw byte slice of at most 16 bytes,
  \<open>NewEndpoint\<close> returns an endpoint, and \<open>Raw\<close> of that endpoint returns exactly the
  original bytes.
\<close>

theorem NewEndpoint_Raw:
  assumes "int (length raw_in) \<le> MaxEndpointSize"
  shows "\<exists>e. NewEndpoint t raw_in = Returns e \<and> Raw e = Returns raw_in
              \<and> e_typ e = t \<and> e_len e = int (length raw_in)"
  using assms
  by (simp add: NewEndpoint_def Let_def Raw_def go_slice_to_def go_slice_def go_copy_def
        zero_Endpoint_def MaxEndpointSize_def min_def)

theorem NewEndpoint_Raw_witness:
  "int (length [192, 168, 0, 1 :: byte]) \<le> MaxEndpointSize
   \<and> (\<exists>e. NewEndpoint 5 [192, 168, 0, 1] = Returns e \<and> Raw e = Returns [192, 168, 0, 1]
              \<and> e_typ e = 5 \<and> e_len e = int (length [192, 168, 0, 1 :: byte]))"
  using NewEndpoint_Raw [of "[192, 168, 0, 1]" 5]
  by (simp add: MaxEndpointSize_def)

section \<open>FlowFromEndpoints\<close>

text \<open>
  C7.  \<open>FlowFromEndpoints a b\<close> returns an error exactly when the two endpoint types
  differ, and the error is the type mismatch; when the types are equal it returns no error
  and the flow of the shared type whose source fields are those of \<open>a\<close> and whose
  destination fields are those of \<open>b\<close>, so that \<open>Endpoints\<close> gives \<open>a\<close> and \<open>b\<close> back.
\<close>

theorem FlowFromEndpoints_mismatch_iff:
  "(snd (FlowFromEndpoints a b) \<noteq> None \<longleftrightarrow> e_typ a \<noteq> e_typ b)
   \<and> (e_typ a \<noteq> e_typ b \<longrightarrow>
        snd (FlowFromEndpoints a b) = Some (MismatchedEndpointTypes (e_typ a) (e_typ b)))
   \<and> (e_typ a = e_typ b \<longrightarrow>
        FlowFromEndpoints a b =
          (\<lparr>f_typ = e_typ a, slen = e_len a, dlen = e_len b, src = e_raw a, dst = e_raw b\<rparr>,
           None)
        \<and> Endpoints (fst (FlowFromEndpoints a b)) = (a, b))"
  by (simp add: FlowFromEndpoints_def Endpoints_def)

theorem FlowFromEndpoints_witness:
  "FlowFromEndpoints \<lparr>e_typ = 2, e_len = 1, e_raw = 7 # replicate 15 0\<rparr>
                     \<lparr>e_typ = 2, e_len = 1, e_raw = 9 # replicate 15 0\<rparr>
     = (\<lparr>f_typ = 2, slen = 1, dlen = 1, src = 7 # replicate 15 0, dst = 9 # replicate 15 0\<rparr>,
        None)
   \<and> snd (FlowFromEndpoints \<lparr>e_typ = 2, e_len = 1, e_raw = 7 # replicate 15 0\<rparr>
                          \<lparr>e_typ = 3, e_len = 1, e_raw = 9 # replicate 15 0\<rparr>)
     = Some (MismatchedEndpointTypes 2 3)"
  using FlowFromEndpoints_mismatch_iff
          [of "\<lparr>e_typ = 2, e_len = 1, e_raw = 7 # replicate 15 0\<rparr>"
              "\<lparr>e_typ = 2, e_len = 1, e_raw = 9 # replicate 15 0\<rparr>"]
        FlowFromEndpoints_mismatch_iff
          [of "\<lparr>e_typ = 2, e_len = 1, e_raw = 7 # replicate 15 0\<rparr>"
              "\<lparr>e_typ = 3, e_len = 1, e_raw = 9 # replicate 15 0\<rparr>"]
  by simp

section \<open>Router advertisement flags\<close>

text \<open>
  C10.  For every value of the \<open>Flags\<close> byte, \<open>ManagedAddressConfig\<close> and
  \<open>OtherConfig\<close> both return true: the masked byte is 0 or the mask, never 1, so the
  results do not depend on the M and O bits.
\<close>

theorem RouterAdvertisement_config_always_true:
  "ManagedAddressConfig (i\<lparr>Flags := x\<rparr>) = True \<and> OtherConfig (i\<lparr>Flags := x\<rparr>) = True"
proof -
  have m: "y AND 0x80 \<noteq> 1" for y :: "8 word"
  proof
    assume "y AND 0x80 = 1"
    then have "bit (y AND 0x80) 0 = bit (1 :: 8 word) 0" by simp
    then show False by (simp add: bit_and_iff)
  qed
  have o: "y AND 0x40 \<noteq> 1" for y :: "8 word"
  proof
    assume "y AND 0x40 = 1"
    then have "bit (y AND 0x40) 0 = bit (1 :: 8 word) 0" by simp
    then show False by (simp add: bit_and_iff)
  qed
  show ?thesis by (simp add: ManagedAddressConfig_def OtherConfig_def m o)
qed

section \<open>ICMPv6 option decoding\<close>

text \<open>One iteration of the loop, case by case.\<close>

declare ICMPv6Options_DecodeFromBytes.simps [simp del]




lemma decode_zero_length:
  "2 \<le> length data \<Longrightarrow> data ! 1 = 0 \<Longrightarrow>
     ICMPv6Options_DecodeFromBytes i data df = (Panics ''slice bounds out of range'', i, df)"
  by (subst ICMPv6Options_DecodeFromBytes.simps) (auto simp: Let_def go_slice_def)



text \<open>
  C2.  At the two-byte input \<open>[1, 0]\<close> (option type 1, length byte 0) the decoder neither
  succeeds nor reports truncation: the converted length 0 passes the check against the
  remaining bytes and \<open>data[2:0]\<close> panics; \<open>SetTruncated\<close> is not called.
\<close>

theorem DecodeFromBytes_zero_length_panics:
  "ICMPv6Options_DecodeFromBytes [] [1, 0] \<lparr>truncated = False\<rparr>
     = (Panics ''slice bounds out of range'', [], \<lparr>truncated = False\<rparr>)"
  by (simp add: decode_zero_length)



section \<open>Flow hashing\<close>

text \<open>
  Swapping the two buffers swaps the two accumulators of the loop, as long as the loop
  bound \<open>slen\<close> is the same.
\<close>

declare Flow_FastHash_loop.simps [simp del]

lemma Flow_FastHash_loop_swap:
  assumes "slen g = slen f" and "src g = dst f" and "dst g = src f"
  shows "Flow_FastHash_loop g i b a =
           (case Flow_FastHash_loop f i a b of
              Panics m \<Rightarrow> Panics m
            | Returns (x, y) \<Rightarrow> Returns (y, x))"
  using assms
proof (induction f i a b rule: Flow_FastHash_loop.induct)
  case (1 f i a b)
  note assms = "1.prems"
  show ?case
  proof (cases "i < slen f")
    case False
    with assms show ?thesis
      by (simp add: Flow_FastHash_loop.simps [of f] Flow_FastHash_loop.simps [of g])
  next
    case True
    show ?thesis
    proof (cases "0 \<le> slen f - 1 - i \<and> slen f - 1 - i < int (length (src f))")
      case s: True
      show ?thesis
    proof (cases "0 \<le> slen f - 1 - i \<and> slen f - 1 - i < int (length (dst f))")
      case d: True
      from True s d have ih: "Flow_FastHash_loop g (i + 1)
           (b XOR push_bit (16 * (nat i mod 4)) (ucast (dst f ! nat (slen f - 1 - i))))
           (a XOR push_bit (16 * (nat i mod 4)) (ucast (src f ! nat (slen f - 1 - i))))
        = (case Flow_FastHash_loop f (i + 1)
           (a XOR push_bit (16 * (nat i mod 4)) (ucast (src f ! nat (slen f - 1 - i))))
           (b XOR push_bit (16 * (nat i mod 4)) (ucast (dst f ! nat (slen f - 1 - i)))) of
              Panics m \<Rightarrow> Panics m
            | Returns (x, y) \<Rightarrow> Returns (y, x))"
        by (intro "1.IH") (simp_all add: go_index_def assms)
      from True s d assms show ?thesis
        by (subst Flow_FastHash_loop.simps [of f], subst Flow_FastHash_loop.simps [of g])
           (simp add: go_index_def ih)
    next
      case d: False
      with True assms show ?thesis
      by (subst Flow_FastHash_loop.simps [of f], subst Flow_FastHash_loop.simps [of g])
           (auto simp add: go_index_def)
    qed
    next
      case s: False
      with True assms show ?thesis
      by (subst Flow_FastHash_loop.simps [of f], subst Flow_FastHash_loop.simps [of g])
           (auto simp add: go_index_def)
    qed
  qed
qed

lemma Flow_FastHash_Reverse_equal_lengths:
  assumes "slen f = dlen f"
  shows "Flow_FastHash (Reverse f) = Flow_FastHash f"
proof -
  have "Flow_FastHash_loop (Reverse f) 0 0 0 =
           (case Flow_FastHash_loop f 0 0 0 of
              Panics m \<Rightarrow> Panics m
            | Returns (x, y) \<Rightarrow> Returns (y, x))"
    using assms by (intro Flow_FastHash_loop_swap) (simp_all add: Reverse_def)
  then show ?thesis
    by (auto simp: Flow_FastHash_def split: outcome.splits)
qed

text \<open>
  C1.  The flow built by \<open>NewFlow\<close> from the one-byte source \<open>[1]\<close> and the empty
  destination hashes to 1, and its reverse hashes to 0: the loop runs \<open>slen\<close> times
  over both buffers, once for the flow and not at all for its reverse.
\<close>

theorem Flow_FastHash_Reverse_differs:
  "NewFlow 0 [1] [] =
     Returns \<lparr>f_typ = 0, slen = 1, dlen = 0, src = 1 # replicate 15 0, dst = replicate 16 0\<rparr>
   \<and> Flow_FastHash \<lparr>f_typ = 0, slen = 1, dlen = 0, src = 1 # replicate 15 0, dst = replicate 16 0\<rparr> = Returns 1
   \<and> Flow_FastHash (Reverse \<lparr>f_typ = 0, slen = 1, dlen = 0, src = 1 # replicate 15 0, dst = replicate 16 0\<rparr>) = Returns 0"
  by (simp add: NewFlow_def Let_def zero_Flow_def MaxEndpointSize_def go_copy_def
         Flow_FastHash_def Flow_FastHash_loop.simps go_index_def Reverse_def)

section \<open>Endpoint ordering\<close>

text \<open>
  \<open>bytes.Compare\<close> is negative exactly on the lexicographic order of the unsigned
  bytes, and the endpoints that \<open>NewEndpoint\<close> returns are valid.
\<close>

lemma NewEndpoint_valid:
  "NewEndpoint t raw_in = Returns e \<Longrightarrow> Endpoint_valid e"
  by (auto simp: NewEndpoint_def Let_def Endpoint_valid_def zero_Endpoint_def go_copy_def
        MaxEndpointSize_def min_def split: if_splits)

lemma bytes_Compare_less_iff:
  "bytes_Compare xs ys < 0 \<longleftrightarrow> (xs, ys) \<in> lexord {(x, y). x < y}"
  by (induction xs ys rule: bytes_Compare.induct) auto

lemma Raw_valid:
  "Endpoint_valid a \<Longrightarrow> Raw a = Returns (take (nat (e_len a)) (e_raw a))"
  by (simp add: Endpoint_valid_def Raw_def go_slice_to_def go_slice_def)

lemma LessThan_valid:
  assumes "Endpoint_valid a" and "Endpoint_valid b"
  shows "LessThan a b =
           Returns (e_typ a <s e_typ b
                    \<or> e_typ a = e_typ b
                      \<and> (take (nat (e_len a)) (e_raw a), take (nat (e_len b)) (e_raw b))
                           \<in> lexord {(x, y). x < y})"
  using assms
  by (simp add: Endpoint_valid_def LessThan_def go_slice_to_def go_slice_def bytes_Compare_less_iff)

lemma byte_lexord_linear:
  "(xs, ys) \<in> lexord {(x :: byte, y). x < y} \<or> xs = ys \<or> (ys, xs) \<in> lexord {(x, y). x < y}"
  by (rule lexord_linear) auto

lemma byte_lexord_asym:
  "(xs, ys) \<in> lexord {(x :: byte, y). x < y} \<Longrightarrow> (ys, xs) \<notin> lexord {(x, y). x < y}"
  by (rule lexord_asymmetric [rotated]) (auto intro: asymI)

lemma byte_lexord_irrefl:
  "(xs, xs) \<notin> lexord {(x :: byte, y). x < y}"
  by (rule lexord_irreflexive) simp

lemma byte_lexord_trans:
  "(xs, ys) \<in> lexord {(x :: byte, y). x < y} \<Longrightarrow> (ys, zs) \<in> lexord {(x, y). x < y}
     \<Longrightarrow> (xs, zs) \<in> lexord {(x, y). x < y}"
  by (erule lexord_trans) (auto intro: transI)

text \<open>
  C9.  On endpoints \<open>a\<close>, \<open>b\<close>, \<open>c\<close> (with \<open>ra\<close>, \<open>rb\<close> the meaningful raw bytes
  of \<open>a\<close> and \<open>b\<close>) \<open>LessThan\<close> returns without panic; it is true exactly when the
  type of \<open>a\<close> is less, or the types are equal and \<open>ra\<close> is lexicographically less
  than \<open>rb\<close>; exactly one of \<open>a.LessThan(b)\<close>, \<open>b.LessThan(a)\<close> and "same type and
  same raw bytes" holds; and \<open>LessThan\<close> is transitive.
\<close>

theorem LessThan_strict_total_order:
  assumes "Endpoint_valid a" and "Endpoint_valid b" and "Endpoint_valid c"
  shows "\<exists>ra rb. Raw a = Returns ra \<and> Raw b = Returns rb
           \<and> LessThan a b =
               Returns (e_typ a <s e_typ b
                        \<or> e_typ a = e_typ b \<and> (ra, rb) \<in> lexord {(x, y). x < y})
           \<and> (LessThan a b = Returns True \<and> LessThan b a = Returns False
                  \<and> \<not> (e_typ a = e_typ b \<and> ra = rb)
               \<or> LessThan a b = Returns False \<and> LessThan b a = Returns True
                  \<and> \<not> (e_typ a = e_typ b \<and> ra = rb)
               \<or> LessThan a b = Returns False \<and> LessThan b a = Returns False
                  \<and> e_typ a = e_typ b \<and> ra = rb)
           \<and> (LessThan a b = Returns True \<and> LessThan b c = Returns True
                \<longrightarrow> LessThan a c = Returns True)"
proof -
  define ra where "ra = take (nat (e_len a)) (e_raw a)"
  define rb where "rb = take (nat (e_len b)) (e_raw b)"
  define rc where "rc = take (nat (e_len c)) (e_raw c)"
  define ab where "ab \<longleftrightarrow> e_typ a <s e_typ b \<or> e_typ a = e_typ b \<and> (ra, rb) \<in> lexord {(x, y). x < y}"
  define ba where "ba \<longleftrightarrow> e_typ b <s e_typ a \<or> e_typ b = e_typ a \<and> (rb, ra) \<in> lexord {(x, y). x < y}"
  define bc where "bc \<longleftrightarrow> e_typ b <s e_typ c \<or> e_typ b = e_typ c \<and> (rb, rc) \<in> lexord {(x, y). x < y}"
  define ac where "ac \<longleftrightarrow> e_typ a <s e_typ c \<or> e_typ a = e_typ c \<and> (ra, rc) \<in> lexord {(x, y). x < y}"
  have lab: "LessThan a b = Returns ab" and lba: "LessThan b a = Returns ba"
    and lbc: "LessThan b c = Returns bc" and lac: "LessThan a c = Returns ac"
    unfolding ab_def ba_def bc_def ac_def ra_def rb_def rc_def
    by (rule LessThan_valid, fact, fact)+
  have Ra: "Raw a = Returns ra" and Rb: "Raw b = Returns rb"
    unfolding ra_def rb_def by (rule Raw_valid, fact)+
  have one: "ab \<or> ba \<or> e_typ a = e_typ b \<and> ra = rb"
  proof (cases "e_typ a = e_typ b")
    case True
    with byte_lexord_linear [of ra rb] show ?thesis
      unfolding ab_def ba_def by auto
  next
    case False
    with signed.less_linear [of "e_typ a" "e_typ b"] show ?thesis
      unfolding ab_def ba_def by simp
  qed
  have not_both: "\<not> (ab \<and> ba)"
  proof (cases "e_typ a = e_typ b")
    case True
    with byte_lexord_asym [of ra rb] show ?thesis
      unfolding ab_def ba_def by (auto simp: signed.less_irrefl)
  next
    case False
    with signed.less_not_sym [of "e_typ a" "e_typ b"] show ?thesis
      unfolding ab_def ba_def by auto
  qed
  have not_eq: "\<not> (ab \<and> e_typ a = e_typ b \<and> ra = rb)"
    "\<not> (ba \<and> e_typ a = e_typ b \<and> ra = rb)"
    unfolding ab_def ba_def
    using byte_lexord_irrefl [of ra] by (auto simp: signed.less_irrefl)
  have trans: "ab \<and> bc \<longrightarrow> ac"
  proof
    assume h: "ab \<and> bc"
    show ac
    proof (cases "e_typ a = e_typ b")
      case ab_eq: True
      show ?thesis
      proof (cases "e_typ b = e_typ c")
        case True
        with ab_eq h byte_lexord_trans [of ra rb rc] show ?thesis
          unfolding ab_def bc_def ac_def by (simp add: signed.less_irrefl)
      next
        case False
        with ab_eq h show ?thesis
          unfolding ab_def bc_def ac_def by simp
      qed
    next
      case ab_ne: False
      with h have lt1: "e_typ a <s e_typ b"
        unfolding ab_def by simp
      show ?thesis
      proof (cases "e_typ b = e_typ c")
        case True
        with lt1 show ?thesis
          unfolding ac_def by simp
      next
        case False
        with h have "e_typ b <s e_typ c"
          unfolding bc_def by simp
        with lt1 have "e_typ a <s e_typ c"
          by (rule signed.less_trans)
        then show ?thesis
          unfolding ac_def by simp
      qed
    qed
  qed
  have tri: "LessThan a b = Returns True \<and> LessThan b a = Returns False
                  \<and> \<not> (e_typ a = e_typ b \<and> ra = rb)
               \<or> LessThan a b = Returns False \<and> LessThan b a = Returns True
                  \<and> \<not> (e_typ a = e_typ b \<and> ra = rb)
               \<or> LessThan a b = Returns False \<and> LessThan b a = Returns False
                  \<and> e_typ a = e_typ b \<and> ra = rb"
    unfolding lab lba outcome.inject using one not_both not_eq by auto
  have tr: "LessThan a b = Returns True \<and> LessThan b c = Returns True
                \<longrightarrow> LessThan a c = Returns True"
    unfolding lab lbc lac outcome.inject using trans by simp
  have "Raw a = Returns ra \<and> Raw b = Returns rb
           \<and> LessThan a b =
               Returns (e_typ a <s e_typ b
                        \<or> e_typ a = e_typ b \<and> (ra, rb) \<in> lexord {(x, y). x < y})
           \<and> (LessThan a b = Returns True \<and> LessThan b a = Returns False
                  \<and> \<not> (e_typ a = e_typ b \<and> ra = rb)
               \<or> LessThan a b = Returns False \<and> LessThan b a = Returns True
                  \<and> \<not> (e_typ a = e_typ b \<and> ra = rb)
               \<or> LessThan a b = Returns False \<and> LessThan b a = Returns False
                  \<and> e_typ a = e_typ b \<and> ra = rb)
           \<and> (LessThan a b = Returns True \<and> LessThan b c = Returns True
                \<longrightarrow> LessThan a c = Returns True)"
    using Ra Rb lab [unfolded ab_def] tri tr by (intro conjI)
  then show ?thesis
    by (intro exI)
qed

theorem LessThan_witness:
  "LessThan \<lparr>e_typ = 2, e_len = 1, e_raw = 10 # replicate 15 0\<rparr>
            \<lparr>e_typ = 2, e_len = 2, e_raw = 10 # replicate 15 0\<rparr> = Returns True
   \<and> LessThan \<lparr>e_typ = 2, e_len = 2, e_raw = 10 # replicate 15 0\<rparr>
               \<lparr>e_typ = 2, e_len = 1, e_raw = 10 # replicate 15 0\<rparr> = Returns False
   \<and> LessThan \<lparr>e_typ = 2, e_len = 2, e_raw = 10 # replicate 15 0\<rparr>
               \<lparr>e_typ = 3, e_len = 0, e_raw = replicate 16 0\<rparr> = Returns True
   \<and> LessThan \<lparr>e_typ = 2, e_len = 1, e_raw = 10 # replicate 15 0\<rparr>
               \<lparr>e_typ = 3, e_len = 0, e_raw = replicate 16 0\<rparr> = Returns True"
proof -
  let ?a = "\<lparr>e_typ = 2, e_len = 1, e_raw = 10 # replicate 15 0\<rparr>"
  let ?b = "\<lparr>e_typ = 2, e_len = 2, e_raw = 10 # replicate 15 0\<rparr>"
  let ?c = "\<lparr>e_typ = 3, e_len = 0, e_raw = replicate 16 0\<rparr>"
  have va: "Endpoint_valid ?a" and vb: "Endpoint_valid ?b" and vc: "Endpoint_valid ?c"
    by (simp_all add: Endpoint_valid_def MaxEndpointSize_def)
  have ra: "Raw ?a = Returns [10]" and rb: "Raw ?b = Returns [10, 0]"
    by (simp_all add: Raw_def go_slice_to_def go_slice_def)
  from LessThan_strict_total_order [OF va vb vc]
  have ab: "LessThan ?a ?b = Returns True"
    and order: "LessThan ?a ?b = Returns True \<and> LessThan ?b ?a = Returns False
                 \<or> LessThan ?a ?b = Returns False \<and> LessThan ?b ?a = Returns True
                 \<or> LessThan ?a ?b = Returns False \<and> LessThan ?b ?a = Returns False"
    and trans: "LessThan ?a ?b = Returns True \<and> LessThan ?b ?c = Returns True
                  \<longrightarrow> LessThan ?a ?c = Returns True"
    by (auto simp: ra rb)
  from LessThan_strict_total_order [OF vb vc vc]
  have bc: "LessThan ?b ?c = Returns True"
    by auto
  from ab order have ba: "LessThan ?b ?a = Returns False"
    by simp
  from ab bc trans have ac: "LessThan ?a ?c = Returns True"
    by simp
  from ab ba bc ac show ?thesis
    by simp
qed

section \<open>Endpoint hashing\<close>











end
